theory Spec2Isabelle
  imports Complex_Main "HOL-Library.AList"
begin

section \<open>Python values, dictionaries and exceptions\<close>

text \<open>
  The SIEM integration code passes events and results around as \<^verbatim>\<open>Dict[str, Any]\<close>.
  A Python value is \<^verbatim>\<open>None\<close>, a bool, an int, a float (carried as an opaque number,
  no arithmetic is done on it), a string, a list or a dict. A dict is an association list
  in insertion order; \<^verbatim>\<open>d[k] = v\<close> is \<open>AList.update\<close> (replace in place, else append),
  \<^verbatim>\<open>del d[k]\<close> is \<open>AList.delete\<close>.
\<close>

datatype pyval =
    PNone
  | PBool bool
  | PInt int
  | PFloat real
  | PStr string
  | PList "pyval list"
  | PDict "(string \<times> pyval) list"

type_synonym pydict = "(string \<times> pyval) list"

text \<open>The result of awaiting a call: it returns a value or raises an \<^verbatim>\<open>Exception\<close>
  (carried as \<^verbatim>\<open>str(e)\<close>).\<close>

datatype 'a outcome = Returned 'a | Raised string

text \<open>
  What awaiting a connector's coroutine yields to the registry and to \<^verbatim>\<open>health_check\<close>:
  the value returned, an \<^verbatim>\<open>Exception\<close> raised (carried as \<^verbatim>\<open>str(e)\<close>), or a raised
  \<^verbatim>\<open>BaseException\<close> that is not an \<^verbatim>\<open>Exception\<close>, which is what \<^verbatim>\<open>asyncio.CancelledError\<close>
  is. \<^verbatim>\<open>except Exception\<close> and \<^verbatim>\<open>isinstance(result, Exception)\<close> hold for the second
  and not for the third.
\<close>

datatype 'a completion = Done 'a | Failed string | Cancelled string

text \<open>What a result map holds under a name: a value of the declared type, or an exception
  object that was stored in its place.\<close>

datatype 'a gathered = Value 'a | ExceptionObject string


text \<open>\<^verbatim>\<open>d.get(k)\<close> and \<^verbatim>\<open>d.get(k, default)\<close>.\<close>

definition dict_get :: "pydict \<Rightarrow> string \<Rightarrow> pyval" where
  "dict_get d k = (case map_of d k of None \<Rightarrow> PNone | Some v \<Rightarrow> v)"

definition dict_get_default :: "pydict \<Rightarrow> string \<Rightarrow> pyval \<Rightarrow> pyval" where
  "dict_get_default d k dflt = (case map_of d k of None \<Rightarrow> dflt | Some v \<Rightarrow> v)"

text \<open>Python truth value testing, as used by \<^verbatim>\<open>if x\<close> and \<^verbatim>\<open>x or y\<close>.\<close>

fun truthy :: "pyval \<Rightarrow> bool" where
  "truthy PNone = False"
| "truthy (PBool b) = b"
| "truthy (PInt i) = (i \<noteq> 0)"
| "truthy (PFloat r) = (r \<noteq> 0)"
| "truthy (PStr s) = (s \<noteq> [])"
| "truthy (PList xs) = (xs \<noteq> [])"
| "truthy (PDict d) = (d \<noteq> [])"

section \<open>base.py: the common envelope\<close>

text \<open>
  \<^verbatim>\<open>_remove_empty_dicts\<close>: a non-dict is returned as it is; in a dict, a dict value is
  cleaned recursively and kept when the cleaned dict is non-empty and has a value that is
  not \<^verbatim>\<open>None\<close>; any other value is kept when it is not \<^verbatim>\<open>None\<close>. Lists are values like any
  other: the function does not look inside them.
\<close>

fun remove_empty_dicts_items :: "pydict \<Rightarrow> pydict" where
  "remove_empty_dicts_items [] = []"
| "remove_empty_dicts_items ((key, PDict d) # rest) =
     (let nested = remove_empty_dicts_items d in
      if nested \<noteq> [] \<and> list_ex (\<lambda>v. v \<noteq> PNone) (map snd nested)
      then (key, PDict nested) # remove_empty_dicts_items rest
      else remove_empty_dicts_items rest)"
| "remove_empty_dicts_items ((key, PNone) # rest) = remove_empty_dicts_items rest"
| "remove_empty_dicts_items ((key, v) # rest) = (key, v) # remove_empty_dicts_items rest"

fun remove_empty_dicts :: "pyval \<Rightarrow> pyval" where
  "remove_empty_dicts (PDict d) = PDict (remove_empty_dicts_items d)"
| "remove_empty_dicts v = v"

text \<open>
  \<^verbatim>\<open>format_dlp_event\<close>. \<open>now_iso\<close> is \<^verbatim>\<open>datetime.utcnow().isoformat()\<close> at the call.
\<close>

definition format_dlp_event_raw :: "string \<Rightarrow> pydict \<Rightarrow> pydict" where
  "format_dlp_event_raw now_iso event =
    [(''timestamp'', dict_get_default event ''timestamp'' (PStr now_iso)),
     (''event_id'', dict_get event ''event_id''),
     (''event_type'', PStr ''dlp_incident''),
     (''source'', PStr ''cybersentinel_dlp''),
     (''severity'', dict_get_default event ''severity'' (PStr ''medium'')),
     (''agent'', PDict
        [(''id'', dict_get event ''agent_id''),
         (''name'', dict_get event ''agent_name''),
         (''hostname'', dict_get event ''hostname''),
         (''ip'', dict_get event ''agent_ip''),
         (''os'', dict_get event ''os'')]),
     (''dlp'', PDict
        [(''classification_type'', dict_get event ''classification_type''),
         (''confidence'', dict_get event ''confidence''),
         (''blocked'', dict_get_default event ''blocked'' (PBool False)),
         (''policy_id'', dict_get event ''policy_id''),
         (''policy_name'', dict_get event ''policy_name''),
         (''rule_id'', dict_get event ''rule_id'')]),
     (''user'', PDict
        [(''username'', dict_get event ''username''),
         (''domain'', dict_get event ''domain''),
         (''email'', dict_get event ''user_email'')]),
     (''network'', PDict
        [(''source_ip'', dict_get event ''source_ip''),
         (''destination_ip'', dict_get event ''destination_ip''),
         (''destination_host'', dict_get event ''destination_host''),
         (''destination_country'', dict_get event ''destination_country'')]),
     (''file'', PDict
        [(''name'', dict_get event ''file_name''),
         (''path'', dict_get event ''file_path''),
         (''size'', dict_get event ''file_size''),
         (''hash'', dict_get event ''file_hash''),
         (''type'', dict_get event ''file_type'')]),
     (''actions'', dict_get_default event ''actions'' (PList [])),
     (''metadata'', dict_get_default event ''metadata'' (PDict []))]"

definition format_dlp_event :: "string \<Rightarrow> pydict \<Rightarrow> pydict" where
  "format_dlp_event now_iso event = remove_empty_dicts_items (format_dlp_event_raw now_iso event)"

subsection \<open>What "pruned" means\<close>

text \<open>
  \<open>pruned_deep\<close> is the property at every nesting depth, lists included: no value is
  \<^verbatim>\<open>None\<close>, and no dict below the top is empty (a dict with only \<^verbatim>\<open>None\<close> values then
  cannot occur either). \<open>pruned_dicts\<close> is the same property along dict nesting only:
  a list is a leaf and its elements are not inspected.
\<close>

fun pruned_deep :: "pyval \<Rightarrow> bool"
  and pruned_deep_items :: "pydict \<Rightarrow> bool"
  and pruned_deep_elems :: "pyval list \<Rightarrow> bool" where
  "pruned_deep PNone = False"
| "pruned_deep (PDict d) = (d \<noteq> [] \<and> pruned_deep_items d)"
| "pruned_deep (PList xs) = pruned_deep_elems xs"
| "pruned_deep (PBool b) = True"
| "pruned_deep (PInt i) = True"
| "pruned_deep (PFloat r) = True"
| "pruned_deep (PStr s) = True"
| "pruned_deep_items [] = True"
| "pruned_deep_items ((k, v) # rest) = (pruned_deep v \<and> pruned_deep_items rest)"
| "pruned_deep_elems [] = True"
| "pruned_deep_elems (x # xs) = (pruned_deep x \<and> pruned_deep_elems xs)"



subsection \<open>Connectors and their abstract methods\<close>

datatype SIEMType = ELK | SPLUNK | QRADAR | SENTINEL | WAZUH | CUSTOM

fun SIEMType_value :: "SIEMType \<Rightarrow> string" where
  "SIEMType_value ELK = ''elk''"
| "SIEMType_value SPLUNK = ''splunk''"
| "SIEMType_value QRADAR = ''qradar''"
| "SIEMType_value SENTINEL = ''sentinel''"
| "SIEMType_value WAZUH = ''wazuh''"
| "SIEMType_value CUSTOM = ''custom''"

text \<open>The fields \<^verbatim>\<open>SIEMConnector.__init__\<close> sets (\<^verbatim>\<open>config\<close>, the extra keyword
  arguments, is not read by any function modelled here).\<close>

record SIEMConnector =
  name :: string
  siem_type :: SIEMType
  host :: string
  port :: int
  use_ssl :: bool
  verify_certs :: bool
  connected :: bool

text \<open>
  The abstract methods are implemented by subclasses; the registry only awaits them. Each
  is given by what awaiting it on a connector yields. \<open>connect\<close> and \<open>disconnect\<close>
  are given for the runs in which they return or raise an \<^verbatim>\<open>Exception\<close>. Of the fields
  above, the methods of the shipped connectors assign only \<open>connected\<close>
  (\<^verbatim>\<open>test_connection\<close> calls \<^verbatim>\<open>connect()\<close> when there is no client or session), so
  \<open>test_connection\<close> is given by what it yields together with the value of
  \<open>connected\<close> it leaves behind.
\<close>

record connector_methods =
  connect :: "SIEMConnector \<Rightarrow> bool outcome"
  disconnect :: "SIEMConnector \<Rightarrow> bool outcome"
  test_connection :: "SIEMConnector \<Rightarrow> pydict completion \<times> bool"
  send_event :: "SIEMConnector \<Rightarrow> pydict \<Rightarrow> string option \<Rightarrow> bool completion"

text \<open>The connector methods a registry function awaited, in the order it created the calls.\<close>

datatype call =
    Connect SIEMConnector
  | Disconnect SIEMConnector
  | TestConnection SIEMConnector
  | SendEvent SIEMConnector pydict "string option"

text \<open>\<^verbatim>\<open>try: body except Exception as e: handler(e)\<close>: an \<^verbatim>\<open>Exception\<close> goes to the
  handler, any other \<^verbatim>\<open>BaseException\<close> passes through.\<close>

definition try_except_Exception ::
  "'a completion \<Rightarrow> (string \<Rightarrow> 'a completion) \<Rightarrow> 'a completion" where
  "try_except_Exception body handler =
     (case body of Done v \<Rightarrow> Done v | Failed e \<Rightarrow> handler e | Cancelled e \<Rightarrow> Cancelled e)"

text \<open>
  \<^verbatim>\<open>SIEMConnector.health_check\<close>: what awaiting it yields, and the connector afterwards.
  \<^verbatim>\<open>self.connected\<close> is read after \<^verbatim>\<open>self.test_connection()\<close> was awaited; \<open>now_iso\<close>
  is \<^verbatim>\<open>datetime.utcnow().isoformat()\<close>.
\<close>

definition health_check ::
  "connector_methods \<Rightarrow> SIEMConnector \<Rightarrow> string \<Rightarrow> pydict completion \<times> SIEMConnector" where
  "health_check m self0 now_iso =
     (case test_connection m self0 of
        (tc, connected_after) \<Rightarrow>
          (let self = self0\<lparr>connected := connected_after\<rparr> in
           (try_except_Exception
              (case tc of
                 Failed e \<Rightarrow> Failed e
               | Cancelled e \<Rightarrow> Cancelled e
               | Done test_result \<Rightarrow> Done
                   [(''name'', PStr (name self)),
                    (''siem_type'', PStr (SIEMType_value (siem_type self))),
                    (''status'', PStr (if truthy (dict_get test_result ''success'')
                                        then ''healthy'' else ''unhealthy'')),
                    (''connected'', PBool (connected self)),
                    (''host'', PStr (host self)),
                    (''port'', PInt (port self)),
                    (''test_result'', PDict test_result),
                    (''timestamp'', PStr now_iso)])
              (\<lambda>e. Done
                   [(''name'', PStr (name self)),
                    (''siem_type'', PStr (SIEMType_value (siem_type self))),
                    (''status'', PStr ''error''),
                    (''connected'', PBool False),
                    (''error'', PStr e),
                    (''timestamp'', PStr now_iso)]),
            self)))"

section \<open>integration\_service.py: the registry\<close>

record SIEMIntegrationService =
  connectors :: "(string \<times> SIEMConnector) list"
  active_connectors :: "string list"

definition SIEMIntegrationService_init :: SIEMIntegrationService where
  "SIEMIntegrationService_init = \<lparr>connectors = [], active_connectors = []\<rparr>"

text \<open>\<^verbatim>\<open>register_connector\<close>: the assignment and the log line do not raise, so the
  \<^verbatim>\<open>except\<close> branch is not taken.\<close>

definition register_connector ::
  "SIEMIntegrationService \<Rightarrow> SIEMConnector \<Rightarrow> bool \<times> SIEMIntegrationService" where
  "register_connector s connector =
     (True, s\<lparr>connectors := AList.update (name connector) connector (connectors s)\<rparr>)"

text \<open>\<^verbatim>\<open>unregister_connector\<close>. \<^verbatim>\<open>list.remove\<close> removes the first occurrence. The third
  component lists the connector methods awaited: the function awaits none.\<close>

definition unregister_connector ::
  "SIEMIntegrationService \<Rightarrow> string \<Rightarrow> bool \<times> SIEMIntegrationService \<times> call list" where
  "unregister_connector s nm =
     (if nm \<in> set (map fst (connectors s))
      then (True,
            s\<lparr>connectors := AList.delete nm (connectors s),
              active_connectors :=
                (if nm \<in> set (active_connectors s)
                 then remove1 nm (active_connectors s)
                 else active_connectors s)\<rparr>,
            [])
      else (False, s, []))"

text \<open>\<^verbatim>\<open>connect_all\<close>: the loop over \<^verbatim>\<open>self.connectors.items()\<close>, carrying \<^verbatim>\<open>results\<close>,
  \<^verbatim>\<open>self.active_connectors\<close> and the calls made so far.\<close>

fun connect_all_loop ::
  "connector_methods \<Rightarrow> (string \<times> SIEMConnector) list \<Rightarrow>
   (string \<times> bool) list \<times> string list \<times> call list \<Rightarrow>
   (string \<times> bool) list \<times> string list \<times> call list" where
  "connect_all_loop m [] acc = acc"
| "connect_all_loop m ((nm, connector) # rest) (results, active, calls) =
     (case connect m connector of
        Returned success \<Rightarrow>
          connect_all_loop m rest
            (AList.update nm success results,
             (if success
              then (if nm \<notin> set active then active @ [nm] else active)
              else (if nm \<in> set active then remove1 nm active else active)),
             calls @ [Connect connector])
      | Raised e \<Rightarrow>
          connect_all_loop m rest
            (AList.update nm False results, active, calls @ [Connect connector]))"

definition connect_all ::
  "connector_methods \<Rightarrow> SIEMIntegrationService \<Rightarrow>
   (string \<times> bool) list \<times> SIEMIntegrationService \<times> call list" where
  "connect_all m s =
     (case connect_all_loop m (connectors s) ([], active_connectors s, []) of
        (results, active, calls) \<Rightarrow> (results, s\<lparr>active_connectors := active\<rparr>, calls))"

text \<open>\<^verbatim>\<open>disconnect_all\<close>.\<close>

fun disconnect_all_loop ::
  "connector_methods \<Rightarrow> (string \<times> SIEMConnector) list \<Rightarrow>
   (string \<times> bool) list \<times> string list \<times> call list \<Rightarrow>
   (string \<times> bool) list \<times> string list \<times> call list" where
  "disconnect_all_loop m [] acc = acc"
| "disconnect_all_loop m ((nm, connector) # rest) (results, active, calls) =
     (case disconnect m connector of
        Returned success \<Rightarrow>
          disconnect_all_loop m rest
            (AList.update nm success results,
             (if nm \<in> set active then remove1 nm active else active),
             calls @ [Disconnect connector])
      | Raised e \<Rightarrow>
          disconnect_all_loop m rest
            (AList.update nm False results, active, calls @ [Disconnect connector]))"

definition disconnect_all ::
  "connector_methods \<Rightarrow> SIEMIntegrationService \<Rightarrow>
   (string \<times> bool) list \<times> SIEMIntegrationService \<times> call list" where
  "disconnect_all m s =
     (case disconnect_all_loop m (connectors s) ([], active_connectors s, []) of
        (results, active, calls) \<Rightarrow> (results, s\<lparr>active_connectors := active\<rparr>, calls))"

text \<open>
  \<^verbatim>\<open>send_event_to_all\<close>. The first loop collects, for every name of
  \<^verbatim>\<open>self.active_connectors\<close> that \<^verbatim>\<open>self.connectors.get\<close> finds, the call to make
  (\<^verbatim>\<open>tasks\<close>) and the name (\<^verbatim>\<open>connector_names\<close>); a connector object is always truthy.
  \<^verbatim>\<open>asyncio.gather(*tasks, return_exceptions=True)\<close> awaits every call and gives, in the
  order of the tasks, the value returned or the exception object raised, a
  \<^verbatim>\<open>CancelledError\<close> included. The second loop fills \<^verbatim>\<open>status_map\<close>: a result that is an
  instance of \<^verbatim>\<open>Exception\<close> becomes \<^verbatim>\<open>False\<close>, any other result is stored as it is.
\<close>

fun collect_tasks :: "(string \<times> SIEMConnector) list \<Rightarrow> string list \<Rightarrow> (string \<times> SIEMConnector) list" where
  "collect_tasks cs [] = []"
| "collect_tasks cs (nm # rest) =
     (case map_of cs nm of
        Some connector \<Rightarrow> (nm, connector) # collect_tasks cs rest
      | None \<Rightarrow> collect_tasks cs rest)"

definition gather_return_exceptions :: "('t \<Rightarrow> 'r) \<Rightarrow> 't list \<Rightarrow> 'r list" where
  "gather_return_exceptions run tasks = map run tasks"

fun map_send_results ::
  "(string \<times> bool completion) list \<Rightarrow> (string \<times> bool gathered) list \<Rightarrow>
   (string \<times> bool gathered) list" where
  "map_send_results [] status_map = status_map"
| "map_send_results ((nm, result) # rest) status_map =
     (case result of
        Failed e \<Rightarrow> map_send_results rest (AList.update nm (Value False) status_map)
      | Cancelled e \<Rightarrow> map_send_results rest (AList.update nm (ExceptionObject e) status_map)
      | Done b \<Rightarrow> map_send_results rest (AList.update nm (Value b) status_map))"

definition send_event_to_all ::
  "connector_methods \<Rightarrow> SIEMIntegrationService \<Rightarrow> pydict \<Rightarrow> string option \<Rightarrow>
   (string \<times> bool gathered) list \<times> call list" where
  "send_event_to_all m s event idx =
     (let tasks = collect_tasks (connectors s) (active_connectors s);
          connector_names = map fst tasks;
          results = gather_return_exceptions (\<lambda>(nm, connector). send_event m connector event idx) tasks
      in (map_send_results (zip connector_names results) [],
          map (\<lambda>(nm, connector). SendEvent connector event idx) tasks))"

text \<open>
  \<^verbatim>\<open>health_check_all\<close>: every registered connector's \<^verbatim>\<open>health_check\<close> is gathered, and
  the second loop fills \<^verbatim>\<open>health_map\<close> with the same test on the results as above. The
  function assigns to neither \<^verbatim>\<open>self.connectors\<close> nor \<^verbatim>\<open>self.active_connectors\<close>. The
  registry holds the connector objects themselves, so the service afterwards has the same
  names in the same order, each with its connector as the probe left it.
\<close>

fun map_health_results ::
  "(string \<times> pydict completion) list \<Rightarrow> (string \<times> pydict gathered) list \<Rightarrow>
   (string \<times> pydict gathered) list" where
  "map_health_results [] health_map = health_map"
| "map_health_results ((nm, result) # rest) health_map =
     (case result of
        Failed e \<Rightarrow>
          map_health_results rest
            (AList.update nm (Value [(''status'', PStr ''error''), (''error'', PStr e)]) health_map)
      | Cancelled e \<Rightarrow> map_health_results rest (AList.update nm (ExceptionObject e) health_map)
      | Done d \<Rightarrow> map_health_results rest (AList.update nm (Value d) health_map))"

definition health_check_all ::
  "connector_methods \<Rightarrow> string \<Rightarrow> SIEMIntegrationService \<Rightarrow>
   (string \<times> pydict gathered) list \<times> SIEMIntegrationService" where
  "health_check_all m now_iso s =
     (let tasks = connectors s;
          connector_names = map fst tasks;
          probes = gather_return_exceptions
                     (\<lambda>(nm, connector). health_check m connector now_iso) tasks;
          results = map fst probes
      in (map_health_results (zip connector_names results) [],
          s\<lparr>connectors := zip connector_names (map snd probes)\<rparr>))"

text \<open>The state the service is in after any sequence of its methods: the active names are
  distinct and each is registered, and every connector is registered once, under its own
  name.\<close>

definition registry_inv :: "SIEMIntegrationService \<Rightarrow> bool" where
  "registry_inv s \<longleftrightarrow>
     distinct (active_connectors s) \<and>
     set (active_connectors s) \<subseteq> set (map fst (connectors s)) \<and>
     distinct (map fst (connectors s)) \<and>
     list_all (\<lambda>(k, c). name c = k) (connectors s)"


text \<open>The states of the service: the one \<^verbatim>\<open>__init__\<close> builds, and those its
  mutating methods lead to, whatever the connectors do.\<close>

inductive reachable :: "SIEMIntegrationService \<Rightarrow> bool" where
  init: "reachable SIEMIntegrationService_init"
| register: "reachable s \<Longrightarrow> reachable (snd (register_connector s c))"
| unregister: "reachable s \<Longrightarrow> reachable (fst (snd (unregister_connector s nm)))"
| connect: "reachable s \<Longrightarrow> reachable (fst (snd (connect_all m s)))"
| disconnect: "reachable s \<Longrightarrow> reachable (fst (snd (disconnect_all m s)))"
| health_check: "reachable s \<Longrightarrow> reachable (snd (health_check_all m now_iso s))"

section \<open>api/v1/siem.py: the unregister endpoint\<close>

text \<open>
  The endpoint looks the connector up, awaits its \<^verbatim>\<open>disconnect()\<close> ("Disconnect
  first"), and then calls the service's \<^verbatim>\<open>unregister_connector\<close>. An
  exception of \<^verbatim>\<open>disconnect\<close> becomes a 500 and the connector stays registered; an
  unknown name becomes a 404.
\<close>

datatype http_response = HTTP_200 pydict | HTTPException nat string

definition api_unregister_connector ::
  "connector_methods \<Rightarrow> SIEMIntegrationService \<Rightarrow> string \<Rightarrow>
   http_response \<times> SIEMIntegrationService \<times> call list" where
  "api_unregister_connector m s connector_name =
     (let unregister = (\<lambda>calls.
            (case unregister_connector s connector_name of
               (success, s', calls') \<Rightarrow>
                 if \<not> success then (HTTPException 404 ''Connector not found'', s', calls @ calls')
                 else (HTTP_200
                         [(''success'', PBool True),
                          (''message'', PStr (''Connector '' @ [CHR 0x27] @ connector_name @ [CHR 0x27]
                                               @ '' unregistered successfully''))],
                       s', calls @ calls')))
      in case map_of (connectors s) connector_name of
           None \<Rightarrow> unregister []
         | Some connector \<Rightarrow>
             (case disconnect m connector of
                Raised e \<Rightarrow>
                  (HTTPException 500 ''Failed to unregister connector'', s, [Disconnect connector])
              | Returned ok \<Rightarrow> unregister [Disconnect connector]))"

section \<open>elk\_connector.py\<close>

text \<open>The calendar date of \<^verbatim>\<open>datetime.utcnow()\<close>; \<^verbatim>\<open>strftime("%Y.%m.%d")\<close> writes the
  year with four digits (the current year has four) and month and day with two,
  zero-padded.\<close>

record utc_date =
  year :: nat
  month :: nat
  day :: nat

definition digit_char :: "nat \<Rightarrow> char" where
  "digit_char n = ''0123456789'' ! (n mod 10)"

definition strftime_Ymd :: "utc_date \<Rightarrow> string" where
  "strftime_Ymd d =
     [digit_char (year d div 1000), digit_char (year d div 100),
      digit_char (year d div 10), digit_char (year d)]
     @ ''.'' @ [digit_char (month d div 10), digit_char (month d)]
     @ ''.'' @ [digit_char (day d div 10), digit_char (day d)]"

record ELKConnector = SIEMConnector +
  index_prefix :: string
  client :: bool

text \<open>
  The Elasticsearch side. \<open>client\<close> of the connector says whether \<^verbatim>\<open>self.client\<close> is
  set. \<open>es_new_client\<close>: whether constructing \<^verbatim>\<open>AsyncElasticsearch\<close> succeeds;
  \<open>es_info\<close>: what \<^verbatim>\<open>client.info()\<close> (and the log line reading it) yields;
  \<open>es_index\<close>: what \<^verbatim>\<open>client.index(index=..., document=...)\<close> yields;
  \<open>es_streaming_bulk\<close>: the \<^verbatim>\<open>ok\<close> flags \<^verbatim>\<open>helpers.async_streaming_bulk\<close> yields for
  a list of actions when the iteration completes, or the exception it ends with.
\<close>

record es_world =
  es_new_client :: bool
  es_info :: "pydict outcome"
  es_index :: "string \<Rightarrow> pydict \<Rightarrow> pydict outcome"
  es_streaming_bulk :: "(string \<times> pydict) list \<Rightarrow> bool list outcome"

definition ELK_connect :: "es_world \<Rightarrow> 'a ELKConnector_scheme \<Rightarrow> bool \<times> 'a ELKConnector_scheme" where
  "ELK_connect w self =
     (if \<not> es_new_client w then (False, self\<lparr>connected := False\<rparr>)
      else (case es_info w of
              Raised e \<Rightarrow> (False, self\<lparr>connected := False, client := True\<rparr>)
            | Returned info \<Rightarrow> (True, self\<lparr>connected := True, client := True\<rparr>)))"

definition ELK_ensure_connected :: "es_world \<Rightarrow> 'a ELKConnector_scheme \<Rightarrow> 'a ELKConnector_scheme" where
  "ELK_ensure_connected w self =
     (if \<not> client self \<or> \<not> connected self then snd (ELK_connect w self) else self)"

text \<open>\<^verbatim>\<open>if not index: index = f"{self.index_prefix}-{date_suffix}"\<close>, and the same choice
  written \<^verbatim>\<open>index or f"..."\<close> in \<^verbatim>\<open>send_batch\<close>: \<^verbatim>\<open>None\<close> and the empty string are
  both false.\<close>

definition ELK_target_index :: "'a ELKConnector_scheme \<Rightarrow> utc_date \<Rightarrow> string option \<Rightarrow> string" where
  "ELK_target_index self today idx =
     (case idx of
        None \<Rightarrow> index_prefix self @ ''-'' @ strftime_Ymd today
      | Some i \<Rightarrow> if i = [] then index_prefix self @ ''-'' @ strftime_Ymd today else i)"


text \<open>The \<^verbatim>\<open>async for ok, result in ...\<close> loop of \<^verbatim>\<open>send_batch\<close>, carrying
  \<^verbatim>\<open>success_count\<close> and \<^verbatim>\<open>error_count\<close>.\<close>

fun bulk_count :: "bool list \<Rightarrow> nat \<times> nat \<Rightarrow> nat \<times> nat" where
  "bulk_count [] (success_count, error_count) = (success_count, error_count)"
| "bulk_count (ok # rest) (success_count, error_count) =
     (if ok then bulk_count rest (success_count + 1, error_count)
      else bulk_count rest (success_count, error_count + 1))"

text \<open>The dict both connectors return from the \<^verbatim>\<open>except\<close> branch (and Splunk for a
  response that is not 200). Where the exception is the interpreter's own, for a missing
  client or session, its message is written \<open>no client\<close> or \<open>no session\<close>.\<close>

definition batch_failure :: "string \<Rightarrow> nat \<Rightarrow> pydict" where
  "batch_failure e n =
     [(''success'', PBool False),
      (''error'', PStr e),
      (''total'', PInt (int n)),
      (''indexed'', PInt 0),
      (''failed'', PInt (int n))]"

definition ELK_send_batch ::
  "es_world \<Rightarrow> utc_date \<Rightarrow> string \<Rightarrow> 'a ELKConnector_scheme \<Rightarrow> pydict list \<Rightarrow> string option \<Rightarrow>
   pydict \<times> 'a ELKConnector_scheme \<times> (string \<times> pydict) list" where
  "ELK_send_batch w today now_iso self events idx =
     (let self' = ELK_ensure_connected w self;
          target_index = ELK_target_index self' today idx;
          actions = map (\<lambda>event. (target_index, format_dlp_event now_iso event)) events
      in if \<not> client self'
         then (batch_failure ''no client'' (length events), self', [])
         else (case es_streaming_bulk w actions of
                 Raised e \<Rightarrow> (batch_failure e (length events), self', actions)
               | Returned oks \<Rightarrow>
                   (case bulk_count oks (0, 0) of
                      (success_count, error_count) \<Rightarrow>
                        ([(''success'', PBool True),
                          (''total'', PInt (int (length events))),
                          (''indexed'', PInt (int success_count)),
                          (''failed'', PInt (int error_count)),
                          (''index'', PStr target_index)],
                         self', actions))))"

text \<open>What the bulk helper promises with \<^verbatim>\<open>raise_on_error=False\<close>: when the iteration
  completes, it has yielded one \<^verbatim>\<open>(ok, result)\<close> pair for each action.\<close>

definition one_result_per_action :: "es_world \<Rightarrow> bool" where
  "one_result_per_action w \<longleftrightarrow>
     (\<forall>actions oks. es_streaming_bulk w actions = Returned oks \<longrightarrow> length oks = length actions)"

section \<open>splunk\_connector.py\<close>

record SplunkConnector = SIEMConnector +
  source :: string
  sourcetype :: string
  index :: string
  session :: bool

text \<open>
  The Splunk side. \<open>session\<close> of the connector says whether \<^verbatim>\<open>self.session\<close> is set.
  \<open>new_session\<close>: whether creating the HTTP session succeeds; \<open>auth_login\<close>: whether the
  optional login request completes; \<open>fromisoformat_timestamp\<close>:
  \<^verbatim>\<open>int(datetime.fromisoformat(x).timestamp())\<close>, which raises on a value that is not an
  ISO string; \<open>json_dumps\<close>: \<^verbatim>\<open>json.dumps\<close>, which raises on a value it cannot
  serialise; \<open>hec_post\<close>: status and body of the response to the POST of the batch, or the
  exception of the request; \<open>response_json\<close>: parsing the body of a 200 response.
\<close>

record splunk_world =
  new_session :: bool
  auth_login :: bool
  fromisoformat_timestamp :: "pyval \<Rightarrow> int outcome"
  json_dumps :: "pydict \<Rightarrow> string outcome"
  hec_post :: "string \<Rightarrow> (nat \<times> string) outcome"
  response_json :: "string \<Rightarrow> pydict outcome"

definition Splunk_connect ::
  "splunk_world \<Rightarrow> 'a SplunkConnector_scheme \<Rightarrow> bool \<times> 'a SplunkConnector_scheme" where
  "Splunk_connect w self =
     (if \<not> new_session w then (False, self\<lparr>connected := False\<rparr>)
      else if \<not> auth_login w then (False, self\<lparr>connected := False, session := True\<rparr>)
      else (True, self\<lparr>connected := True, session := True\<rparr>))"

definition Splunk_ensure_connected ::
  "splunk_world \<Rightarrow> 'a SplunkConnector_scheme \<Rightarrow> 'a SplunkConnector_scheme" where
  "Splunk_ensure_connected w self =
     (if \<not> session self \<or> \<not> connected self then snd (Splunk_connect w self) else self)"

text \<open>\<^verbatim>\<open>index or self.index\<close>.\<close>

definition Splunk_target_index :: "'a SplunkConnector_scheme \<Rightarrow> string option \<Rightarrow> string" where
  "Splunk_target_index self idx =
     (case idx of None \<Rightarrow> index self | Some i \<Rightarrow> if i = [] then index self else i)"

text \<open>One round of the payload loop: format the event, build the HEC payload, serialise it.\<close>

definition hec_payload ::
  "splunk_world \<Rightarrow> string \<Rightarrow> 'a SplunkConnector_scheme \<Rightarrow> string option \<Rightarrow> pydict \<Rightarrow> string outcome" where
  "hec_payload w now_iso self idx event =
     (let formatted_event = format_dlp_event now_iso event in
      case fromisoformat_timestamp w (dict_get_default formatted_event ''timestamp'' (PStr now_iso)) of
        Raised e \<Rightarrow> Raised e
      | Returned t \<Rightarrow>
          (case dict_get_default formatted_event ''agent'' (PDict []) of
             PDict agent \<Rightarrow>
               json_dumps w
                 [(''time'', PInt t),
                  (''host'', dict_get_default agent ''hostname'' (PStr ''unknown'')),
                  (''source'', PStr (source self)),
                  (''sourcetype'', PStr (sourcetype self)),
                  (''index'', PStr (Splunk_target_index self idx)),
                  (''event'', PDict formatted_event)]
           | _ \<Rightarrow> Raised ''AttributeError''))"

fun batch_payloads ::
  "splunk_world \<Rightarrow> string \<Rightarrow> 'a SplunkConnector_scheme \<Rightarrow> string option \<Rightarrow> pydict list \<Rightarrow>
   string list \<Rightarrow> string list outcome" where
  "batch_payloads w now_iso self idx [] acc = Returned acc"
| "batch_payloads w now_iso self idx (event # rest) acc =
     (case hec_payload w now_iso self idx event of
        Raised e \<Rightarrow> Raised e
      | Returned p \<Rightarrow> batch_payloads w now_iso self idx rest (acc @ [p]))"

text \<open>\<^verbatim>\<open>"\n".join(batch_payloads)\<close>.\<close>

fun join_lines :: "string list \<Rightarrow> string" where
  "join_lines [] = []"
| "join_lines [p] = p"
| "join_lines (p # q # rest) = p @ [CHR 0x0A] @ join_lines (q # rest)"

definition Splunk_send_batch ::
  "splunk_world \<Rightarrow> string \<Rightarrow> 'a SplunkConnector_scheme \<Rightarrow> pydict list \<Rightarrow> string option \<Rightarrow>
   pydict \<times> 'a SplunkConnector_scheme" where
  "Splunk_send_batch w now_iso self events idx =
     (let self' = Splunk_ensure_connected w self in
      case batch_payloads w now_iso self' idx events [] of
        Raised e \<Rightarrow> (batch_failure e (length events), self')
      | Returned payloads \<Rightarrow>
          if \<not> session self' then (batch_failure ''no session'' (length events), self')
          else (case hec_post w (join_lines payloads) of
                  Raised e \<Rightarrow> (batch_failure e (length events), self')
                | Returned (status, text) \<Rightarrow>
                    if status = 200
                    then (case response_json w text of
                            Raised e \<Rightarrow> (batch_failure e (length events), self')
                          | Returned result \<Rightarrow>
                              ([(''success'', PBool True),
                                (''total'', PInt (int (length events))),
                                (''indexed'', PInt (int (length events))),
                                (''failed'', PInt 0),
                                (''index'', PStr (Splunk_target_index self' idx))],
                               self'))
                    else (batch_failure text (length events), self')))"

section \<open>actions/action\_types.py\<close>

datatype ActionType =
    ALERT | BLOCK | QUARANTINE | REDACT | ENCRYPT | NOTIFY | WEBHOOK | AUDIT | TAG
  | ESCALATE | DELETE | PRESERVE | FLAG_FOR_REVIEW | CREATE_INCIDENT | TRACK

text \<open>A \<^verbatim>\<open>datetime\<close> value, as microseconds on the UTC clock.\<close>

type_synonym datetime = nat

record ActionResult =
  action_type :: ActionType
  success :: bool
  message :: "string option"
  metadata :: pydict
  timestamp :: datetime
  error :: "string option"

record ExecutionSummary =
  event_id :: string
  policy_id :: string
  rule_id :: string
  summary_timestamp :: datetime
  actions_executed :: "ActionResult list"
  total_actions :: int
  successful_actions :: int
  failed_actions :: int
  blocked :: bool
  quarantined :: bool
  encrypted :: bool
  redacted :: bool
  notifications_sent :: int
  webhooks_called :: int
  alerts_created :: int

text \<open>
  Importing the module runs the two class bodies once. Each field default written
  \<^verbatim>\<open>timestamp: datetime = datetime.utcnow()\<close> is an expression of the class body: it is
  evaluated there, and the class keeps the value. \<open>utcnow\<close> gives the clock reading of
  the \<open>n\<close>-th call of \<^verbatim>\<open>datetime.utcnow()\<close>; the import makes calls \<open>0\<close> and \<open>1\<close>.
\<close>

record action_types_module =
  ActionResult_timestamp_default :: datetime
  ExecutionSummary_timestamp_default :: datetime

definition import_action_types :: "(nat \<Rightarrow> datetime) \<Rightarrow> action_types_module" where
  "import_action_types utcnow =
     \<lparr>ActionResult_timestamp_default = utcnow 0,
      ExecutionSummary_timestamp_default = utcnow 1\<rparr>"

text \<open>
  Constructing an instance: a keyword argument that is not passed (\<open>None\<close> here) takes
  the class's default. \<open>n\<close> says how many calls of \<^verbatim>\<open>utcnow\<close> were made before the
  construction, so \<open>utcnow n\<close> is the clock at the construction; the constructor makes no
  call of its own.
\<close>

definition new_ActionResult ::
  "action_types_module \<Rightarrow> (nat \<Rightarrow> datetime) \<Rightarrow> nat \<Rightarrow> ActionType \<Rightarrow> bool \<Rightarrow> string option \<Rightarrow>
   pydict option \<Rightarrow> datetime option \<Rightarrow> string option \<Rightarrow> ActionResult" where
  "new_ActionResult md utcnow n a_type ok msg meta ts err =
     \<lparr>action_type = a_type,
      success = ok,
      message = msg,
      metadata = (case meta of None \<Rightarrow> [] | Some d \<Rightarrow> d),
      timestamp = (case ts of None \<Rightarrow> ActionResult_timestamp_default md | Some t \<Rightarrow> t),
      error = err\<rparr>"

definition new_ExecutionSummary ::
  "action_types_module \<Rightarrow> (nat \<Rightarrow> datetime) \<Rightarrow> nat \<Rightarrow> string \<Rightarrow> string \<Rightarrow> string \<Rightarrow>
   datetime option \<Rightarrow> ExecutionSummary" where
  "new_ExecutionSummary md utcnow n ev pol rule ts =
     \<lparr>event_id = ev,
      policy_id = pol,
      rule_id = rule,
      summary_timestamp = (case ts of None \<Rightarrow> ExecutionSummary_timestamp_default md | Some t \<Rightarrow> t),
      actions_executed = [],
      total_actions = 0,
      successful_actions = 0,
      failed_actions = 0,
      blocked = False,
      quarantined = False,
      encrypted = False,
      redacted = False,
      notifications_sent = 0,
      webhooks_called = 0,
      alerts_created = 0\<rparr>"


section \<open>Concrete connectors and sinks for evaluation\<close>

definition demo_connector :: "string \<Rightarrow> SIEMConnector" where
  "demo_connector nm =
     \<lparr>name = nm, siem_type = CUSTOM, host = ''siem.example'', port = 9200,
      use_ssl = True, verify_certs = True, connected = True\<rparr>"

text \<open>Two connectors registered, both active.\<close>

definition demo_service :: SIEMIntegrationService where
  "demo_service =
     \<lparr>connectors = [(''sink_a'', demo_connector ''sink_a''), (''sink_b'', demo_connector ''sink_b'')],
      active_connectors = [''sink_a'', ''sink_b'']\<rparr>"

text \<open>\<open>sink_a\<close> works; every method of \<open>sink_b\<close> raises an \<^verbatim>\<open>Exception\<close>, and its
  failed probe leaves it disconnected.\<close>

definition demo_methods :: connector_methods where
  "demo_methods =
     \<lparr>connect = (\<lambda>c. if name c = ''sink_a'' then Returned True else Raised ''boom''),
      disconnect = (\<lambda>c. if name c = ''sink_a'' then Returned True else Raised ''boom''),
      test_connection = (\<lambda>c. if name c = ''sink_a''
                               then (Done [(''success'', PBool True)], True)
                               else (Failed ''boom'', False)),
      send_event = (\<lambda>c event idx. if name c = ''sink_a'' then Done True else Failed ''boom'')\<rparr>"

text \<open>Every sink is unreachable: \<^verbatim>\<open>connect\<close> and \<^verbatim>\<open>send_event\<close> return \<^verbatim>\<open>False\<close>, the
  connection test reports no success and leaves \<open>connected\<close> as it was.\<close>

definition down_methods :: connector_methods where
  "down_methods =
     \<lparr>connect = (\<lambda>c. Returned False),
      disconnect = (\<lambda>c. Returned True),
      test_connection = (\<lambda>c. (Done [(''success'', PBool False),
                                      (''message'', PStr ''cluster unreachable'')], connected c)),
      send_event = (\<lambda>c event idx. Done False)\<rparr>"

text \<open>The coroutines of \<open>sink_b\<close> are cancelled: they raise \<^verbatim>\<open>asyncio.CancelledError\<close>.
  The connection test of \<open>sink_a\<close> answers with the string \<^verbatim>\<open>"false"\<close> as its success
  value.\<close>

definition cancelled_methods :: connector_methods where
  "cancelled_methods =
     \<lparr>connect = (\<lambda>c. Returned True),
      disconnect = (\<lambda>c. Returned True),
      test_connection = (\<lambda>c. if name c = ''sink_a''
                               then (Done [(''success'', PStr ''false'')], connected c)
                               else (Cancelled ''CancelledError'', connected c)),
      send_event = (\<lambda>c event idx. if name c = ''sink_a'' then Done True
                                     else Cancelled ''CancelledError'')\<rparr>"

definition demo_elk :: ELKConnector where
  "demo_elk =
     \<lparr>name = ''ELK Stack'', siem_type = ELK, host = ''localhost'', port = 9200,
      use_ssl = True, verify_certs = True, connected = True,
      index_prefix = ''dlp-events'', client = True\<rparr>"

text \<open>An Elasticsearch that accepts every document except those of the second event of a
  batch.\<close>

definition demo_es :: es_world where
  "demo_es =
     \<lparr>es_new_client = True,
      es_info = Returned [(''cluster_name'', PStr ''demo'')],
      es_index = (\<lambda>i doc. Returned [(''result'', PStr ''created'')]),
      es_streaming_bulk = (\<lambda>actions. Returned (map (\<lambda>n. n \<noteq> 1) [0..<length actions]))\<rparr>"

definition demo_splunk :: SplunkConnector where
  "demo_splunk =
     \<lparr>name = ''Splunk'', siem_type = SPLUNK, host = ''localhost'', port = 8088,
      use_ssl = True, verify_certs = True, connected = True,
      source = ''cybersentinel_dlp'', sourcetype = ''dlp:event'', index = ''dlp'', session = True\<rparr>"

text \<open>A collector that answers 503 to every batch.\<close>

definition demo_hec :: splunk_world where
  "demo_hec =
     \<lparr>new_session = True,
      auth_login = True,
      fromisoformat_timestamp = (\<lambda>v. case v of PStr s \<Rightarrow> Returned 0 | _ \<Rightarrow> Raised ''TypeError''),
      json_dumps = (\<lambda>d. Returned ''{}''),
      hec_post = (\<lambda>body. Returned (503, ''Service Unavailable'')),
      response_json = (\<lambda>body. Returned [])\<rparr>"

definition demo_date :: utc_date where
  "demo_date = \<lparr>year = 2026, month = 11, day = 4\<rparr>"

text \<open>An event whose action list carries a result record with an unset field.\<close>

definition demo_event :: pydict where
  "demo_event =
     [(''event_id'', PStr ''evt-1''),
      (''hostname'', PStr ''ws-17''),
      (''actions'', PList [PDict [(''type'', PStr ''alert''), (''error'', PNone)]])]"

text \<open>The counts of a batch result: \<^verbatim>\<open>total\<close> is \<open>n\<close>, and \<^verbatim>\<open>indexed\<close> and \<^verbatim>\<open>failed\<close>
  are non-negative integers that add up to it.\<close>

definition batch_counts_add_up :: "pydict \<Rightarrow> nat \<Rightarrow> bool" where
  "batch_counts_add_up r n =
     (case (dict_get r ''total'', dict_get r ''indexed'', dict_get r ''failed'') of
        (PInt t, PInt i, PInt f) \<Rightarrow> t = int n \<and> 0 \<le> i \<and> 0 \<le> f \<and> i + f = t
      | _ \<Rightarrow> False)"


text \<open>The entry \<^verbatim>\<open>send_event_to_all\<close> records for what a \<^verbatim>\<open>send_event\<close> call yielded.\<close>

fun send_entry :: "bool completion \<Rightarrow> bool gathered" where
  "send_entry (Done b) = Value b"
| "send_entry (Failed e) = Value False"
| "send_entry (Cancelled e) = ExceptionObject e"

text \<open>The entry \<^verbatim>\<open>health_check_all\<close> records for what a \<^verbatim>\<open>health_check\<close> yielded.\<close>

fun health_entry :: "pydict completion \<Rightarrow> pydict gathered" where
  "health_entry (Done d) = Value d"
| "health_entry (Failed e) = Value [(''status'', PStr ''error''), (''error'', PStr e)]"
| "health_entry (Cancelled e) = ExceptionObject e"


section \<open>Facts about the model\<close>

subsection \<open>Dictionaries and the loops of the registry\<close>

lemma update_fresh: "k \<notin> fst ` set al \<Longrightarrow> AList.update k v al = al @ [(k, v)]"
  by (induction al) auto

lemma collect_tasks_registered:
  "set active \<subseteq> set (map fst cs) \<Longrightarrow>
   collect_tasks cs active = map (\<lambda>nm. (nm, the (map_of cs nm))) active"
proof (induction active)
  case Nil
  then show ?case by simp
next
  case (Cons nm rest)
  then have "nm \<in> fst ` set cs" by simp
  then obtain c where "map_of cs nm = Some c"
    by (metis domD dom_map_of_conv_image_fst)
  with Cons show ?case by simp
qed

lemma zip_map_self: "zip xs (map f xs) = map (\<lambda>x. (x, f x)) xs"
  by (induction xs) auto

lemma map_send_results_fresh:
  "distinct names \<Longrightarrow> set names \<inter> fst ` set acc = {} \<Longrightarrow> length results = length names \<Longrightarrow>
   map_send_results (zip names results) acc = acc @ zip names (map send_entry results)"
proof (induction names arbitrary: acc results)
  case Nil
  then show ?case by simp
next
  case (Cons nm rest)
  then obtain r rs where res: "results = r # rs" by (cases results) auto
  from Cons.prems have fresh: "nm \<notin> fst ` set acc" by auto
  have step: "\<And>b. set rest \<inter> fst ` set (acc @ [(nm, b)]) = {}"
    using Cons.prems by auto
  show ?case
  proof (cases r)
    case (Done b)
    then show ?thesis
      using Cons.IH[of "acc @ [(nm, Value b)]" rs] Cons.prems res fresh step
      by (simp add: update_fresh)
  next
    case (Failed e)
    then show ?thesis
      using Cons.IH[of "acc @ [(nm, Value False)]" rs] Cons.prems res fresh step
      by (simp add: update_fresh)
  next
    case (Cancelled e)
    then show ?thesis
      using Cons.IH[of "acc @ [(nm, ExceptionObject e)]" rs] Cons.prems res fresh step
      by (simp add: update_fresh)
  qed
qed

lemma send_event_to_all_eq:
  assumes "registry_inv s"
  shows "send_event_to_all m s event idx =
    (map (\<lambda>nm. (nm, send_entry (send_event m (the (map_of (connectors s) nm)) event idx))) (active_connectors s),
     map (\<lambda>nm. SendEvent (the (map_of (connectors s) nm)) event idx) (active_connectors s))"
proof -
  from assms have d: "distinct (active_connectors s)"
    and sub: "set (active_connectors s) \<subseteq> set (map fst (connectors s))"
    by (simp_all add: registry_inv_def)
  have ct: "collect_tasks (connectors s) (active_connectors s) =
      map (\<lambda>nm. (nm, the (map_of (connectors s) nm))) (active_connectors s)"
    by (rule collect_tasks_registered[OF sub])
  let ?names = "active_connectors s"
  let ?results = "map (\<lambda>nm. send_event m (the (map_of (connectors s) nm)) event idx) ?names"
  have "map_send_results (zip ?names ?results) [] = [] @ zip ?names (map send_entry ?results)"
    by (rule map_send_results_fresh) (use d in simp_all)
  then have ms: "map_send_results (zip ?names ?results) [] =
      map (\<lambda>nm. (nm, send_entry (send_event m (the (map_of (connectors s) nm)) event idx))) ?names"
    by (simp add: zip_map_self comp_def)
  show ?thesis
    unfolding send_event_to_all_def Let_def ct gather_return_exceptions_def
    using ms by (simp add: comp_def)
qed

lemma connect_all_loop_active:
  "distinct (map fst cs) \<Longrightarrow> distinct active \<Longrightarrow>
   connect_all_loop m cs (results, active, calls) = (results', active', calls') \<Longrightarrow>
   distinct active' \<and>
   set active' =
     (set active - {nm. \<exists>c. (nm, c) \<in> set cs \<and> connect m c = Returned False})
     \<union> {nm. \<exists>c. (nm, c) \<in> set cs \<and> connect m c = Returned True}"
proof (induction cs arbitrary: results active calls)
  case Nil
  then show ?case by simp
next
  case (Cons p rest)
  obtain nm c where p: "p = (nm, c)" by (cases p)
  from Cons.prems p have fresh: "\<And>c'. (nm, c') \<notin> set rest" and drest: "distinct (map fst rest)"
    by (auto simp: image_iff)
  show ?case
  proof (cases "connect m c")
    case (Raised e)
    with Cons.prems p have
      "connect_all_loop m rest (AList.update nm False results, active, calls @ [Connect c]) = (results', active', calls')"
      by simp
    from Cons.IH[OF drest Cons.prems(2) this] show ?thesis
      using p Raised fresh by auto
  next
    case (Returned ok)
    define active1 where "active1 =
      (if ok then (if nm \<notin> set active then active @ [nm] else active)
       else (if nm \<in> set active then remove1 nm active else active))"
    have d1: "distinct active1" using Cons.prems(2) by (simp add: active1_def)
    have s1: "set active1 = (if ok then insert nm (set active) else set active - {nm})"
      using Cons.prems(2) by (auto simp: active1_def)
    from Cons.prems p Returned have
      "connect_all_loop m rest (AList.update nm ok results, active1, calls @ [Connect c]) = (results', active', calls')"
      by (simp add: active1_def)
    from Cons.IH[OF drest d1 this] show ?thesis
      using p Returned fresh s1 by (cases ok) auto
  qed
qed

lemma registry_inv_init: "registry_inv SIEMIntegrationService_init"
  by (simp add: registry_inv_def SIEMIntegrationService_init_def)

lemma update_keys_own:
  "list_all (\<lambda>(k, c). name c = k) cs \<Longrightarrow> list_all (\<lambda>(k, c). name c = k) (AList.update (name c) c cs)"
  by (induction cs) auto

lemma registry_inv_register:
  "registry_inv s \<Longrightarrow> registry_inv (snd (register_connector s c))"
  by (auto simp: registry_inv_def register_connector_def AList.distinct_update AList.dom_update update_keys_own)

lemma delete_keys_own:
  "list_all (\<lambda>(k, c). name c = k) cs \<Longrightarrow> list_all (\<lambda>(k, c). name c = k) (AList.delete nm cs)"
  by (induction cs) auto

lemma dom_delete: "fst ` set (AList.delete nm cs) = fst ` set cs - {nm}"
  by (induction cs) auto

lemma registry_inv_unregister:
  "registry_inv s \<Longrightarrow> registry_inv (fst (snd (unregister_connector s nm)))"
  by (auto simp: registry_inv_def unregister_connector_def AList.distinct_delete dom_delete delete_keys_own)

lemma registry_inv_connect_all:
  assumes "registry_inv s"
  shows "registry_inv (fst (snd (connect_all m s)))"
proof -
  obtain r a cl where l: "connect_all_loop m (connectors s) ([], active_connectors s, []) = (r, a, cl)"
    by (metis prod_cases3)
  from assms have dk: "distinct (map fst (connectors s))" and da: "distinct (active_connectors s)"
    and sub: "set (active_connectors s) \<subseteq> fst ` set (connectors s)"
    and own: "list_all (\<lambda>(k, c). name c = k) (connectors s)"
    by (simp_all add: registry_inv_def)
  from connect_all_loop_active[OF dk da l] have d: "distinct a"
    and sa: "set a = (set (active_connectors s) - {nm. \<exists>c. (nm, c) \<in> set (connectors s) \<and> connect m c = Returned False})
     \<union> {nm. \<exists>c. (nm, c) \<in> set (connectors s) \<and> connect m c = Returned True}"
    by simp_all
  have "{nm. \<exists>c. (nm, c) \<in> set (connectors s) \<and> connect m c = Returned True} \<subseteq> fst ` set (connectors s)"
    by force
  with sa sub have "set a \<subseteq> fst ` set (connectors s)" by blast
  with d dk own show ?thesis
    by (simp add: connect_all_def l registry_inv_def)
qed

lemma disconnect_all_loop_active:
  "distinct active \<Longrightarrow>
   disconnect_all_loop m cs (results, active, calls) = (results', active', calls') \<Longrightarrow>
   distinct active' \<and> set active' \<subseteq> set active"
proof (induction cs arbitrary: results active calls)
  case Nil
  then show ?case by simp
next
  case (Cons p rest)
  obtain nm c where p: "p = (nm, c)" by (cases p)
  show ?case
  proof (cases "disconnect m c")
    case (Raised e)
    with Cons.prems p have
      "disconnect_all_loop m rest (AList.update nm False results, active, calls @ [Disconnect c])
         = (results', active', calls')"
      by simp
    from Cons.IH[OF Cons.prems(1) this] show ?thesis .
  next
    case (Returned ok)
    define active1 where "active1 = (if nm \<in> set active then remove1 nm active else active)"
    have d1: "distinct active1" and s1: "set active1 \<subseteq> set active"
      using Cons.prems(1) by (auto simp: active1_def)
    from Cons.prems p Returned have
      "disconnect_all_loop m rest (AList.update nm ok results, active1, calls @ [Disconnect c])
         = (results', active', calls')"
      by (simp add: active1_def)
    from Cons.IH[OF d1 this] s1 show ?thesis by blast
  qed
qed

lemma registry_inv_disconnect_all:
  assumes "registry_inv s"
  shows "registry_inv (fst (snd (disconnect_all m s)))"
proof -
  obtain r a cl where l: "disconnect_all_loop m (connectors s) ([], active_connectors s, []) = (r, a, cl)"
    by (metis prod_cases3)
  from assms have da: "distinct (active_connectors s)"
    and sub: "set (active_connectors s) \<subseteq> fst ` set (connectors s)"
    and dk: "distinct (map fst (connectors s))"
    and own: "list_all (\<lambda>(k, c). name c = k) (connectors s)"
    by (simp_all add: registry_inv_def)
  from disconnect_all_loop_active[OF da l] sub have "distinct a" "set a \<subseteq> fst ` set (connectors s)"
    by blast+
  with dk own show ?thesis
    by (simp add: disconnect_all_def l registry_inv_def)
qed

subsection \<open>What a probe yields and leaves behind\<close>

lemma health_check_connector:
  "snd (health_check m c now_iso) = c\<lparr>connected := snd (test_connection m c)\<rparr>"
  by (simp add: health_check_def Let_def split: prod.splits)

lemma health_check_yields:
  "case fst (test_connection m c) of
     Done r \<Rightarrow>
       (\<exists>d. fst (health_check m c now_iso) = Done d
          \<and> dict_get d ''status'' =
              PStr (if truthy (dict_get r ''success'') then ''healthy'' else ''unhealthy'')
          \<and> dict_get d ''connected'' = PBool (snd (test_connection m c)))
   | Failed e \<Rightarrow>
       (\<exists>d. fst (health_check m c now_iso) = Done d
          \<and> dict_get d ''status'' = PStr ''error'' \<and> dict_get d ''error'' = PStr e)
   | Cancelled e \<Rightarrow> fst (health_check m c now_iso) = Cancelled e"
proof (cases "test_connection m c")
  case (Pair tc flag)
  then show ?thesis
    by (cases tc)
       (simp_all add: health_check_def try_except_Exception_def Let_def dict_get_def)
qed

lemma zip_keys_map: "zip (map fst cs) (map g cs) = map (\<lambda>p. (fst p, g p)) cs"
  by (induction cs) auto

lemma map_of_keyed:
  "distinct (map fst cs) \<Longrightarrow> (nm, c) \<in> set cs \<Longrightarrow>
   map_of (map (\<lambda>p. (fst p, f p)) cs) nm = Some (f (nm, c))"
  by (induction cs) (auto simp: image_iff)

lemma map_health_results_fresh:
  "distinct names \<Longrightarrow> set names \<inter> fst ` set acc = {} \<Longrightarrow> length results = length names \<Longrightarrow>
   map_health_results (zip names results) acc = acc @ zip names (map health_entry results)"
proof (induction names arbitrary: acc results)
  case Nil
  then show ?case by simp
next
  case (Cons nm rest)
  then obtain r rs where res: "results = r # rs" by (cases results) auto
  from Cons.prems have fresh: "nm \<notin> fst ` set acc" by auto
  have step: "\<And>b. set rest \<inter> fst ` set (acc @ [(nm, b)]) = {}"
    using Cons.prems by auto
  show ?case
  proof (cases r)
    case (Done d)
    then show ?thesis
      using Cons.IH[of "acc @ [(nm, Value d)]" rs] Cons.prems res fresh step
      by (simp add: update_fresh)
  next
    case (Failed e)
    then show ?thesis
      using Cons.IH[of "acc @ [(nm, Value [(''status'', PStr ''error''), (''error'', PStr e)])]" rs]
            Cons.prems res fresh step
      by (simp add: update_fresh)
  next
    case (Cancelled e)
    then show ?thesis
      using Cons.IH[of "acc @ [(nm, ExceptionObject e)]" rs] Cons.prems res fresh step
      by (simp add: update_fresh)
  qed
qed

lemma health_check_all_eq:
  assumes "distinct (map fst (connectors s))"
  shows "health_check_all m now_iso s =
           (map (\<lambda>p. (fst p, health_entry (fst (health_check m (snd p) now_iso)))) (connectors s),
            s\<lparr>connectors :=
                 map (\<lambda>p. (fst p, (snd p)\<lparr>connected := snd (test_connection m (snd p))\<rparr>))
                     (connectors s)\<rparr>)"
proof -
  let ?names = "map fst (connectors s)"
  let ?run = "\<lambda>p. health_check m (snd p) now_iso"
  have run: "(\<lambda>(nm, connector). health_check m connector now_iso) = ?run"
    by (rule ext) (simp add: case_prod_beta)
  let ?results = "map fst (map ?run (connectors s))"
  have "map_health_results (zip ?names ?results) []
          = [] @ zip ?names (map health_entry ?results)"
    by (rule map_health_results_fresh) (use assms in simp_all)
  also have "\<dots> = map (\<lambda>p. (fst p, health_entry (fst (?run p)))) (connectors s)"
    using zip_keys_map[of "connectors s" "\<lambda>p. health_entry (fst (?run p))"] by (simp add: comp_def)
  finally have hm: "map_health_results (zip ?names ?results) []
      = map (\<lambda>p. (fst p, health_entry (fst (?run p)))) (connectors s)" .
  have cs: "zip ?names (map snd (map ?run (connectors s)))
      = map (\<lambda>p. (fst p, (snd p)\<lparr>connected := snd (test_connection m (snd p))\<rparr>)) (connectors s)"
    using zip_keys_map[of "connectors s" "\<lambda>p. snd (?run p)"]
    by (simp add: comp_def health_check_connector)
  show ?thesis
    unfolding health_check_all_def Let_def gather_return_exceptions_def run
    by (simp only: hm cs)
qed

lemma registry_inv_health_check_all:
  assumes "registry_inv s"
  shows "registry_inv (snd (health_check_all m now_iso s))"
proof -
  from assms have dk: "distinct (map fst (connectors s))"
    and own: "list_all (\<lambda>(k, c). name c = k) (connectors s)"
    by (simp_all add: registry_inv_def)
  have own': "list_all (\<lambda>(k, c). name c = k)
      (map (\<lambda>p. (fst p, (snd p)\<lparr>connected := snd (test_connection m (snd p))\<rparr>)) (connectors s))"
    using own by (induction "connectors s" arbitrary: s) (auto simp: list_all_iff)
  from assms dk own' show ?thesis
    by (simp add: health_check_all_eq[OF dk] registry_inv_def comp_def)
qed

lemma reachable_registry_inv: "reachable s \<Longrightarrow> registry_inv s"
  by (induction rule: reachable.induct)
     (simp_all add: registry_inv_init registry_inv_register registry_inv_unregister
        registry_inv_connect_all registry_inv_disconnect_all registry_inv_health_check_all)

lemma demo_service_inv: "registry_inv demo_service"
  by (simp add: registry_inv_def demo_service_def demo_connector_def)

lemma map_of_registered: "nm \<in> fst ` set cs \<longleftrightarrow> map_of cs nm \<noteq> None"
  by (simp add: map_of_eq_None_iff)

section \<open>The registry\<close>

text \<open>
  C9. \<^verbatim>\<open>register_connector\<close> returns true and is keyed by the connector's name, the last
  registration winning: for two connectors \<open>c1\<close> and \<open>c2\<close> with the same name,
  registering \<open>c1\<close> and then \<open>c2\<close> leaves the name mapped to \<open>c2\<close>, in the very state
  that registering \<open>c2\<close> alone gives; and registering \<open>c1\<close> a second time changes
  nothing.
\<close>

theorem register_connector_last_wins:
  assumes "name c1 = name c2"
  shows "fst (register_connector s c1) = True
    \<and> map_of (connectors (snd (register_connector (snd (register_connector s c1)) c2))) (name c1) = Some c2
    \<and> snd (register_connector (snd (register_connector s c1)) c2) = snd (register_connector s c2)
    \<and> register_connector (snd (register_connector s c1)) c1 = register_connector s c1"
  using assms by (simp add: register_connector_def AList.update_conv')

theorem register_connector_last_wins_witness:
  "name (demo_connector ''sink_a'') = name ((demo_connector ''sink_a'')\<lparr>port := 9300\<rparr>)
   \<and> map_of (connectors (snd (register_connector
         (snd (register_connector demo_service (demo_connector ''sink_a'')))
         ((demo_connector ''sink_a'')\<lparr>port := 9300\<rparr>)))) ''sink_a''
       = Some ((demo_connector ''sink_a'')\<lparr>port := 9300\<rparr>)"
  using register_connector_last_wins
          [of "demo_connector ''sink_a''" "(demo_connector ''sink_a'')\<lparr>port := 9300\<rparr>" demo_service]
  by (simp add: demo_connector_def register_connector_def demo_service_def)

text \<open>
  C3, as stated, fails: \<^verbatim>\<open>unregister_connector\<close> awaits no method of the connector.
  Unregistering the registered \<open>sink_a\<close> makes no \<^verbatim>\<open>disconnect\<close> call.
\<close>

theorem unregister_connector_no_disconnect_counterexample:
  "map_of (connectors demo_service) ''sink_a'' = Some (demo_connector ''sink_a'')
   \<and> Disconnect (demo_connector ''sink_a'') \<notin> set (snd (snd (unregister_connector demo_service ''sink_a'')))"
  by (simp add: unregister_connector_def demo_service_def)

text \<open>
  C3, amended. For every registered name, \<^verbatim>\<open>unregister_connector\<close> returns true, calls
  no connector method, removes the name from the registry and from the active names, and
  leaves every other entry as it was.
\<close>

theorem unregister_connector_drops:
  assumes "registry_inv s" and "map_of (connectors s) nm = Some c"
  shows "case unregister_connector s nm of (ok, s', calls) \<Rightarrow>
           ok \<and> calls = []
           \<and> map_of (connectors s') = (map_of (connectors s))(nm := None)
           \<and> set (active_connectors s') = set (active_connectors s) - {nm}
           \<and> registry_inv s'"
proof -
  from assms(2) have reg: "nm \<in> fst ` set (connectors s)"
    by (simp add: map_of_registered)
  from assms(1) have d: "distinct (active_connectors s)"
    by (simp add: registry_inv_def)
  have inv: "registry_inv (fst (snd (unregister_connector s nm)))"
    by (rule registry_inv_unregister[OF assms(1)])
  show ?thesis
    using reg d inv
    by (auto simp: unregister_connector_def AList.delete_conv')
qed

theorem unregister_connector_drops_witness:
  "registry_inv demo_service
   \<and> map_of (connectors demo_service) ''sink_a'' = Some (demo_connector ''sink_a'')
   \<and> unregister_connector demo_service ''sink_a''
       = (True, \<lparr>connectors = [(''sink_b'', demo_connector ''sink_b'')], active_connectors = [''sink_b'']\<rparr>, [])"
proof -
  have m: "map_of (connectors demo_service) ''sink_a'' = Some (demo_connector ''sink_a'')"
    by (simp add: demo_service_def)
  note t = unregister_connector_drops[OF demo_service_inv m]
  have "unregister_connector demo_service ''sink_a''
       = (True, \<lparr>connectors = [(''sink_b'', demo_connector ''sink_b'')], active_connectors = [''sink_b'']\<rparr>, [])"
    by (simp add: unregister_connector_def demo_service_def)
  with t m demo_service_inv show ?thesis by simp
qed

text \<open>The disconnect is the endpoint's: it awaits \<^verbatim>\<open>disconnect\<close> on the connector it
  looked up, and only then lets the service drop the name.\<close>

lemma api_unregister_disconnects_first:
  assumes "map_of (connectors s) nm = Some c" and "disconnect m c = Returned ok"
  shows "snd (api_unregister_connector m s nm) =
           (fst (snd (unregister_connector s nm)), [Disconnect c])"
proof -
  from assms(1) have "nm \<in> fst ` set (connectors s)" by (simp add: map_of_registered)
  with assms show ?thesis
    by (simp add: api_unregister_connector_def unregister_connector_def)
qed



text \<open>What \<^verbatim>\<open>send_event_to_all\<close> does in every state of the service: one entry per active
  name, in the order of the active list; one \<^verbatim>\<open>send_event\<close> call per active connector,
  no two on the same connector; and under each name the entry for what its call yielded.\<close>

lemma send_event_to_all_entries:
  assumes "registry_inv s"
  shows "case send_event_to_all m s event idx of (status_map, calls) \<Rightarrow>
           map fst status_map = active_connectors s
           \<and> distinct (map fst status_map)
           \<and> calls = map (\<lambda>nm. SendEvent (the (map_of (connectors s) nm)) event idx) (active_connectors s)
           \<and> distinct calls
           \<and> (\<forall>nm \<in> set (active_connectors s).
                 map_of status_map nm
                   = Some (send_entry (send_event m (the (map_of (connectors s) nm)) event idx)))"
proof -
  let ?conn = "\<lambda>nm. the (map_of (connectors s) nm)"
  from assms have d: "distinct (active_connectors s)"
    and sub: "set (active_connectors s) \<subseteq> fst ` set (connectors s)"
    and own: "list_all (\<lambda>(k, c). name c = k) (connectors s)"
    by (simp_all add: registry_inv_def)
  have nm_of: "name (?conn nm) = nm" if "nm \<in> set (active_connectors s)" for nm
  proof -
    from that sub have "nm \<in> fst ` set (connectors s)" by blast
    then obtain c where c: "map_of (connectors s) nm = Some c"
      by (auto simp: map_of_registered)
    then have "(nm, c) \<in> set (connectors s)" by (rule map_of_SomeD)
    with own have "name c = nm" by (auto simp: list_all_iff)
    with c show ?thesis by simp
  qed
  have inj: "inj_on (\<lambda>nm. SendEvent (?conn nm) event idx) (set (active_connectors s))"
  proof (rule inj_onI)
    fix x y assume x: "x \<in> set (active_connectors s)" and y: "y \<in> set (active_connectors s)"
      and "SendEvent (?conn x) event idx = SendEvent (?conn y) event idx"
    then have "?conn x = ?conn y" by simp
    then have "name (?conn x) = name (?conn y)" by (rule arg_cong)
    with nm_of[OF x] nm_of[OF y] show "x = y" by metis
  qed
  let ?status = "map (\<lambda>nm. (nm, send_entry (send_event m (?conn nm) event idx))) (active_connectors s)"
  let ?calls = "map (\<lambda>nm. SendEvent (?conn nm) event idx) (active_connectors s)"
  have eq: "send_event_to_all m s event idx = (?status, ?calls)"
    by (rule send_event_to_all_eq[OF assms])
  have keys: "map fst ?status = active_connectors s"
    by (simp add: comp_def)
  have dc: "distinct ?calls"
    using d inj by (simp add: distinct_map)
  have look: "map_of (map (\<lambda>nm. (nm, f nm)) xs) nm = Some (f nm)"
    if "nm \<in> set xs" for f :: "string \<Rightarrow> bool gathered" and xs nm
    using that by (induction xs) auto
  have entries: "\<forall>nm \<in> set (active_connectors s).
      map_of ?status nm = Some (send_entry (send_event m (?conn nm) event idx))"
  proof
    fix nm assume "nm \<in> set (active_connectors s)"
    from look[OF this, of "\<lambda>nm. send_entry (send_event m (?conn nm) event idx)"]
    show "map_of ?status nm = Some (send_entry (send_event m (?conn nm) event idx))" .
  qed
  from keys d have dk: "distinct (map fst ?status)" by (simp only:)
  show ?thesis
    unfolding eq prod.case
    using keys dk dc entries by blast
qed

text \<open>
  C1 fails where \<^verbatim>\<open>send_event\<close> is cancelled. Both sinks are active; the call on
  \<open>sink_b\<close> raises \<^verbatim>\<open>asyncio.CancelledError\<close>, which is not an \<^verbatim>\<open>Exception\<close>. The
  gathered result fails the \<^verbatim>\<open>isinstance(result, Exception)\<close> test that turns a raised
  \<^verbatim>\<open>Exception\<close> into \<^verbatim>\<open>False\<close>, and the exception object itself is the entry of
  \<open>sink_b\<close> in the map declared \<^verbatim>\<open>Dict[str, bool]\<close>.
\<close>

theorem send_event_to_all_cancelled_entry:
  "send_event cancelled_methods (demo_connector ''sink_b'') demo_event None
     = Cancelled ''CancelledError''
   \<and> fst (send_event_to_all cancelled_methods demo_service demo_event None)
       = [(''sink_a'', Value True), (''sink_b'', ExceptionObject ''CancelledError'')]"
  by (simp add: send_event_to_all_def demo_service_def cancelled_methods_def demo_connector_def
        gather_return_exceptions_def)

text \<open>
  C2 fails where \<^verbatim>\<open>connect()\<close> raises. Both sinks are active; \<open>sink_b\<close> raises in
  \<^verbatim>\<open>connect\<close>. \<^verbatim>\<open>connect_all\<close> reports \<open>False\<close> for it and leaves it in the active
  list: the \<^verbatim>\<open>except\<close> branch sets the result and skips the removal that the
  \<^verbatim>\<open>else\<close> branch does for a connect that returns \<open>False\<close>.
\<close>

theorem connect_all_raise_keeps_active:
  "connect demo_methods (demo_connector ''sink_b'') = Raised ''boom'' \<and> fst (connect_all demo_methods demo_service) = [(''sink_a'', True), (''sink_b'', False)]
   \<and> active_connectors (fst (snd (connect_all demo_methods demo_service))) = [''sink_a'', ''sink_b'']"
  by (simp add: connect_all_def demo_service_def demo_methods_def demo_connector_def)


text \<open>What \<^verbatim>\<open>connect_all\<close> does to the active names, in general: afterwards the active
  names are the registered names whose \<^verbatim>\<open>connect\<close> returned true, together with the
  names that were active before and whose \<^verbatim>\<open>connect\<close> raised.\<close>

lemma connect_all_active_set:
  assumes "registry_inv s"
  shows "set (active_connectors (fst (snd (connect_all m s)))) =
           {nm. \<exists>c. (nm, c) \<in> set (connectors s) \<and> connect m c = Returned True}
           \<union> {nm \<in> set (active_connectors s).
                \<exists>c e. (nm, c) \<in> set (connectors s) \<and> connect m c = Raised e}"
proof -
  obtain r a cl where l: "connect_all_loop m (connectors s) ([], active_connectors s, []) = (r, a, cl)"
    by (metis prod_cases3)
  from assms have dk: "distinct (map fst (connectors s))" and da: "distinct (active_connectors s)"
    and sub: "set (active_connectors s) \<subseteq> fst ` set (connectors s)"
    by (simp_all add: registry_inv_def)
  from connect_all_loop_active[OF dk da l] have
    sa: "set a = (set (active_connectors s) - {nm. \<exists>c. (nm, c) \<in> set (connectors s) \<and> connect m c = Returned False})
     \<union> {nm. \<exists>c. (nm, c) \<in> set (connectors s) \<and> connect m c = Returned True}"
    by simp
  have split: "nm \<notin> {nm. \<exists>c. (nm, c) \<in> set (connectors s) \<and> connect m c = Returned False}
      \<longleftrightarrow> (\<exists>c. (nm, c) \<in> set (connectors s) \<and> connect m c = Returned True)
          \<or> (\<exists>c e. (nm, c) \<in> set (connectors s) \<and> connect m c = Raised e)"
    if "nm \<in> set (active_connectors s)" for nm
  proof -
    from that sub obtain c where c: "(nm, c) \<in> set (connectors s)" by force
    have uniq: "c' = c" if "(nm, c') \<in> set (connectors s)" for c'
      using that c dk by (meson eq_key_imp_eq_value)
    show ?thesis
    proof (cases "connect m c")
      case (Raised e)
      have "connect m c' \<noteq> Returned False" if "(nm, c') \<in> set (connectors s)" for c'
        using uniq[OF that] Raised by simp
      with c Raised show ?thesis by blast
    next
      case (Returned b)
      show ?thesis
      proof (cases b)
        case True
        have "connect m c' \<noteq> Returned False" if "(nm, c') \<in> set (connectors s)" for c'
          using uniq[OF that] Returned True by simp
        moreover from Returned True have "connect m c = Returned True" by simp
        ultimately show ?thesis using c by blast
      next
        case False
        have "connect m c' = Returned False" if "(nm, c') \<in> set (connectors s)" for c'
          using uniq[OF that] Returned False by simp
        with c show ?thesis by force
      qed
    qed
  qed
  have res: "active_connectors (fst (snd (connect_all m s))) = a"
    by (simp add: connect_all_def l)
  let ?F = "{nm. \<exists>c. (nm, c) \<in> set (connectors s) \<and> connect m c = Returned False}"
  let ?T = "{nm. \<exists>c. (nm, c) \<in> set (connectors s) \<and> connect m c = Returned True}"
  let ?R = "{nm. \<exists>c e. (nm, c) \<in> set (connectors s) \<and> connect m c = Raised e}"
  have split': "nm \<notin> ?F \<longleftrightarrow> nm \<in> ?T \<or> nm \<in> ?R" if "nm \<in> set (active_connectors s)" for nm
    using split[OF that] by simp
  have "set (active_connectors s) - ?F = set (active_connectors s) \<inter> (?T \<union> ?R)"
  proof (rule set_eqI)
    fix nm
    show "nm \<in> set (active_connectors s) - ?F \<longleftrightarrow> nm \<in> set (active_connectors s) \<inter> (?T \<union> ?R)"
      using split'[of nm] by (cases "nm \<in> set (active_connectors s)") simp_all
  qed
  then have "set a = (set (active_connectors s) \<inter> (?T \<union> ?R)) \<union> ?T"
    using sa by (simp only:)
  also have "\<dots> = ?T \<union> (set (active_connectors s) \<inter> ?R)"
    by (rule set_eqI) (simp only: Un_iff Int_iff, iprover)
  also have "set (active_connectors s) \<inter> ?R = {nm \<in> set (active_connectors s).
                \<exists>c e. (nm, c) \<in> set (connectors s) \<and> connect m c = Raised e}"
    by (rule set_eqI) simp
  finally show ?thesis by (simp only: res)
qed

section \<open>Health checks\<close>

text \<open>
  C7, as stated, fails twice. \<^verbatim>\<open>health_check\<close> catches \<^verbatim>\<open>Exception\<close> only: when
  \<^verbatim>\<open>test_connection\<close> of \<open>sink_b\<close> raises \<^verbatim>\<open>asyncio.CancelledError\<close>,
  \<^verbatim>\<open>health_check\<close> raises it too. And the status is decided by Python's truth test: the
  connection test of \<open>sink_a\<close> returns the string \<^verbatim>\<open>"false"\<close> as its success value, which
  is not true, and the status is \<open>healthy\<close>.
\<close>

theorem health_check_cancelled_counterexample:
  "fst (health_check cancelled_methods (demo_connector ''sink_b'') ''2026-11-04T00:00:00'')
     = Cancelled ''CancelledError''
   \<and> fst (test_connection cancelled_methods (demo_connector ''sink_a''))
       = Done [(''success'', PStr ''false'')]
   \<and> fst (health_check cancelled_methods (demo_connector ''sink_a'') ''2026-11-04T00:00:00'')
       = Done [(''name'', PStr ''sink_a''),
               (''siem_type'', PStr ''custom''),
               (''status'', PStr ''healthy''),
               (''connected'', PBool True),
               (''host'', PStr ''siem.example''),
               (''port'', PInt 9200),
               (''test_result'', PDict [(''success'', PStr ''false'')]),
               (''timestamp'', PStr ''2026-11-04T00:00:00'')]"
  by (simp add: health_check_def try_except_Exception_def cancelled_methods_def demo_connector_def
        dict_get_def Let_def)

text \<open>
  C7, amended. Whenever \<^verbatim>\<open>test_connection\<close> returns or raises an \<^verbatim>\<open>Exception\<close>,
  \<^verbatim>\<open>health_check\<close> returns a dict; its \<open>status\<close> is one of \<open>healthy\<close>, \<open>unhealthy\<close>,
  \<open>error\<close>; it is \<open>healthy\<close> exactly when \<^verbatim>\<open>test_connection\<close> returned a result whose
  \<open>success\<close> value passes Python's truth test, and \<open>error\<close> exactly when
  \<^verbatim>\<open>test_connection\<close> raised an \<^verbatim>\<open>Exception\<close>.
\<close>

theorem health_check_outcome:
  assumes "\<forall>e. fst (test_connection m self) \<noteq> Cancelled e"
  shows "\<exists>d. fst (health_check m self now_iso) = Done d
         \<and> dict_get d ''status'' \<in> {PStr ''healthy'', PStr ''unhealthy'', PStr ''error''}
         \<and> (dict_get d ''status'' = PStr ''healthy''
               \<longleftrightarrow> (\<exists>r. fst (test_connection m self) = Done r \<and> truthy (dict_get r ''success'')))
         \<and> (dict_get d ''status'' = PStr ''error''
               \<longleftrightarrow> (\<exists>e. fst (test_connection m self) = Failed e))"
proof (cases "fst (test_connection m self)")
  case (Done r)
  with health_check_yields[of m self now_iso] obtain d where
    "fst (health_check m self now_iso) = Done d"
    "dict_get d ''status'' = PStr (if truthy (dict_get r ''success'') then ''healthy'' else ''unhealthy'')"
    by auto
  with Done show ?thesis by auto
next
  case (Failed e)
  with health_check_yields[of m self now_iso] obtain d where
    "fst (health_check m self now_iso) = Done d" "dict_get d ''status'' = PStr ''error''"
    by auto
  with Failed show ?thesis by auto
next
  case (Cancelled e)
  with assms show ?thesis by simp
qed

theorem health_check_outcome_witness:
  "(\<forall>e. fst (test_connection demo_methods (demo_connector ''sink_b'')) \<noteq> Cancelled e)
   \<and> (\<exists>d. fst (health_check demo_methods (demo_connector ''sink_b'') ''2026-11-04T00:00:00'') = Done d
         \<and> dict_get d ''status'' = PStr ''error'')
   \<and> (\<forall>e. fst (test_connection demo_methods (demo_connector ''sink_a'')) \<noteq> Cancelled e)
   \<and> (\<exists>d. fst (health_check demo_methods (demo_connector ''sink_a'') ''2026-11-04T00:00:00'') = Done d
         \<and> dict_get d ''status'' = PStr ''healthy'')"
proof -
  have f: "fst (test_connection demo_methods (demo_connector ''sink_b'')) = Failed ''boom''"
    by (simp add: demo_methods_def demo_connector_def)
  have g: "fst (test_connection demo_methods (demo_connector ''sink_a'')) = Done [(''success'', PBool True)]"
    by (simp add: demo_methods_def demo_connector_def)
  have t: "truthy (dict_get [(''success'', PBool True)] ''success'')"
    by (simp add: dict_get_def)
  from f have nf: "\<forall>e. fst (test_connection demo_methods (demo_connector ''sink_b'')) \<noteq> Cancelled e"
    by simp
  from g have ng: "\<forall>e. fst (test_connection demo_methods (demo_connector ''sink_a'')) \<noteq> Cancelled e"
    by simp
  from health_check_outcome[OF nf, of "''2026-11-04T00:00:00''"] f
  have a: "\<exists>d. fst (health_check demo_methods (demo_connector ''sink_b'') ''2026-11-04T00:00:00'') = Done d
         \<and> dict_get d ''status'' = PStr ''error''"
    by auto
  from health_check_outcome[OF ng, of "''2026-11-04T00:00:00''"] g t
  have b: "\<exists>d. fst (health_check demo_methods (demo_connector ''sink_a'') ''2026-11-04T00:00:00'') = Done d
         \<and> dict_get d ''status'' = PStr ''healthy''"
    by auto
  from nf a ng b show ?thesis by blast
qed

text \<open>
  C8, as stated, fails: no connector changes state. The probe of the active \<open>sink_a\<close>
  reports a connectivity failure, its status in the returned map is \<open>unhealthy\<close>, and the
  service is what it was, \<open>sink_a\<close> still among the active names.
\<close>

theorem health_check_all_no_transition_counterexample:
  "map_of (fst (health_check_all down_methods ''2026-11-04T00:00:00'' demo_service)) ''sink_a''
     = Some (Value [(''name'', PStr ''sink_a''),
                    (''siem_type'', PStr ''custom''),
                    (''status'', PStr ''unhealthy''),
                    (''connected'', PBool True),
                    (''host'', PStr ''siem.example''),
                    (''port'', PInt 9200),
                    (''test_result'', PDict [(''success'', PBool False),
                                             (''message'', PStr ''cluster unreachable'')]),
                    (''timestamp'', PStr ''2026-11-04T00:00:00'')])
   \<and> snd (health_check_all down_methods ''2026-11-04T00:00:00'' demo_service) = demo_service
   \<and> ''sink_a'' \<in> set (active_connectors (snd (health_check_all down_methods ''2026-11-04T00:00:00'' demo_service)))"
  by (simp add: health_check_all_def gather_return_exceptions_def health_check_def
        try_except_Exception_def down_methods_def demo_service_def demo_connector_def dict_get_def
        Let_def)

text \<open>
  C8, amended. \<^verbatim>\<open>health_check_all\<close> leaves the registered names and the active names
  unchanged in every case; each connector is left as its own probe left it, which for the
  fields of the base class means its \<open>connected\<close> flag. A failed probe shows only in the
  returned map, which has one entry per registered connector: the result of its
  \<^verbatim>\<open>health_check\<close>, with the \<open>connected\<close> flag as the probe left it and status
  \<open>unhealthy\<close> when the connection test returned without success, and with status
  \<open>error\<close> when the connection test raised an \<^verbatim>\<open>Exception\<close>.
\<close>

theorem health_check_all_frame:
  assumes "registry_inv s"
  shows "case health_check_all m now_iso s of (health_map, s') \<Rightarrow>
           map fst (connectors s') = map fst (connectors s)
           \<and> active_connectors s' = active_connectors s
           \<and> registry_inv s'
           \<and> map fst health_map = map fst (connectors s)
           \<and> (\<forall>(nm, c) \<in> set (connectors s).
                 map_of (connectors s') nm = Some (c\<lparr>connected := snd (test_connection m c)\<rparr>)
                 \<and> (case fst (test_connection m c) of
                       Done r \<Rightarrow>
                         (\<exists>d. map_of health_map nm = Some (Value d)
                            \<and> dict_get d ''status'' =
                                PStr (if truthy (dict_get r ''success'')
                                      then ''healthy'' else ''unhealthy'')
                            \<and> dict_get d ''connected'' = PBool (snd (test_connection m c)))
                     | Failed e \<Rightarrow>
                         (\<exists>d. map_of health_map nm = Some (Value d)
                            \<and> dict_get d ''status'' = PStr ''error'')
                     | Cancelled e \<Rightarrow> True))"
proof -
  let ?hm = "map (\<lambda>p. (fst p, health_entry (fst (health_check m (snd p) now_iso)))) (connectors s)"
  let ?cs = "map (\<lambda>p. (fst p, (snd p)\<lparr>connected := snd (test_connection m (snd p))\<rparr>)) (connectors s)"
  from assms have dk: "distinct (map fst (connectors s))" by (simp add: registry_inv_def)
  have eq: "health_check_all m now_iso s = (?hm, s\<lparr>connectors := ?cs\<rparr>)"
    by (rule health_check_all_eq[OF dk])
  have inv: "registry_inv (s\<lparr>connectors := ?cs\<rparr>)"
    using registry_inv_health_check_all[OF assms, of m now_iso] by (simp add: eq)
  have keys: "map fst ?hm = map fst (connectors s)" "map fst ?cs = map fst (connectors s)"
    by (simp_all add: comp_def)
  have entry: "map_of ?cs nm = Some (c\<lparr>connected := snd (test_connection m c)\<rparr>)
      \<and> (case fst (test_connection m c) of
            Done r \<Rightarrow>
              (\<exists>d. map_of ?hm nm = Some (Value d)
                 \<and> dict_get d ''status'' =
                     PStr (if truthy (dict_get r ''success'') then ''healthy'' else ''unhealthy'')
                 \<and> dict_get d ''connected'' = PBool (snd (test_connection m c)))
          | Failed e \<Rightarrow>
              (\<exists>d. map_of ?hm nm = Some (Value d) \<and> dict_get d ''status'' = PStr ''error'')
          | Cancelled e \<Rightarrow> True)"
    if mem: "(nm, c) \<in> set (connectors s)" for nm c
  proof -
    have c1: "map_of ?cs nm = Some (c\<lparr>connected := snd (test_connection m c)\<rparr>)"
      using map_of_keyed[OF dk mem, of "\<lambda>p. (snd p)\<lparr>connected := snd (test_connection m (snd p))\<rparr>"]
      by simp
    have h1: "map_of ?hm nm = Some (health_entry (fst (health_check m c now_iso)))"
      using map_of_keyed[OF dk mem, of "\<lambda>p. health_entry (fst (health_check m (snd p) now_iso))"]
      by simp
    show ?thesis
    proof (cases "fst (test_connection m c)")
      case (Done r)
      with health_check_yields[of m c now_iso] obtain d where
        "fst (health_check m c now_iso) = Done d"
        "dict_get d ''status'' = PStr (if truthy (dict_get r ''success'') then ''healthy'' else ''unhealthy'')"
        "dict_get d ''connected'' = PBool (snd (test_connection m c))"
        by auto
      with Done c1 h1 show ?thesis by simp
    next
      case (Failed e)
      with health_check_yields[of m c now_iso] obtain d where
        "fst (health_check m c now_iso) = Done d" "dict_get d ''status'' = PStr ''error''"
        by auto
      with Failed c1 h1 show ?thesis by simp
    next
      case (Cancelled e)
      with c1 show ?thesis by simp
    qed
  qed
  from entry have all: "\<forall>(nm, c) \<in> set (connectors s).
      map_of ?cs nm = Some (c\<lparr>connected := snd (test_connection m c)\<rparr>)
      \<and> (case fst (test_connection m c) of
            Done r \<Rightarrow>
              (\<exists>d. map_of ?hm nm = Some (Value d)
                 \<and> dict_get d ''status'' =
                     PStr (if truthy (dict_get r ''success'') then ''healthy'' else ''unhealthy'')
                 \<and> dict_get d ''connected'' = PBool (snd (test_connection m c)))
          | Failed e \<Rightarrow>
              (\<exists>d. map_of ?hm nm = Some (Value d) \<and> dict_get d ''status'' = PStr ''error'')
          | Cancelled e \<Rightarrow> True)"
    by blast
  show ?thesis
    unfolding eq prod.case
    using keys inv all by simp
qed

theorem health_check_all_frame_witness:
  "registry_inv demo_service
   \<and> map fst (connectors (snd (health_check_all demo_methods ''2026-11-04T00:00:00'' demo_service)))
       = [''sink_a'', ''sink_b'']
   \<and> active_connectors (snd (health_check_all demo_methods ''2026-11-04T00:00:00'' demo_service))
       = [''sink_a'', ''sink_b'']
   \<and> map_of (connectors (snd (health_check_all demo_methods ''2026-11-04T00:00:00'' demo_service))) ''sink_b''
       = Some ((demo_connector ''sink_b'')\<lparr>connected := False\<rparr>)"
proof -
  note t = health_check_all_frame[OF demo_service_inv, where m=demo_methods and now_iso="''2026-11-04T00:00:00''"]
  obtain hm s' where p: "health_check_all demo_methods ''2026-11-04T00:00:00'' demo_service = (hm, s')"
    by (cases "health_check_all demo_methods ''2026-11-04T00:00:00'' demo_service")
  have mem: "(''sink_b'', demo_connector ''sink_b'') \<in> set (connectors demo_service)"
    by (simp add: demo_service_def)
  have flag: "snd (test_connection demo_methods (demo_connector ''sink_b'')) = False"
    by (simp add: demo_methods_def demo_connector_def)
  from t have names: "map fst (connectors s') = map fst (connectors demo_service)"
    and act: "active_connectors s' = active_connectors demo_service"
    and ent: "\<forall>(nm, c) \<in> set (connectors demo_service).
                 map_of (connectors s') nm = Some (c\<lparr>connected := snd (test_connection demo_methods c)\<rparr>)"
    unfolding p prod.case by (blast, blast, fast)
  from ent mem flag have "map_of (connectors s') ''sink_b'' = Some ((demo_connector ''sink_b'')\<lparr>connected := False\<rparr>)"
    by fastforce
  with names act p demo_service_inv show ?thesis
    by (simp add: demo_service_def)
qed

text \<open>For a cancelled probe, the entry in the map is the exception object.\<close>

lemma health_check_all_cancelled_entry:
  "map_of (fst (health_check_all cancelled_methods ''2026-11-04T00:00:00'' demo_service)) ''sink_b''
     = Some (ExceptionObject ''CancelledError'')"
  by (simp add: health_check_all_def gather_return_exceptions_def health_check_def
        try_except_Exception_def cancelled_methods_def demo_service_def demo_connector_def Let_def)

section \<open>The common envelope\<close>







section \<open>Default timestamps of the action results\<close>

text \<open>
  C10. The default timestamp of \<^verbatim>\<open>ActionResult\<close>, and likewise that of
  \<^verbatim>\<open>ExecutionSummary\<close>, is the clock reading taken when the module was imported: two
  instances built without a timestamp argument, after any number of later clock
  readings, carry the same timestamp.
\<close>

theorem default_timestamp_fixed_at_import:
  "timestamp (new_ActionResult (import_action_types utcnow) utcnow n1 a1 ok1 msg1 meta1 None err1) = utcnow 0
   \<and> timestamp (new_ActionResult (import_action_types utcnow) utcnow n1 a1 ok1 msg1 meta1 None err1)
       = timestamp (new_ActionResult (import_action_types utcnow) utcnow n2 a2 ok2 msg2 meta2 None err2)
   \<and> summary_timestamp (new_ExecutionSummary (import_action_types utcnow) utcnow n1 ev1 pol1 rule1 None) = utcnow 1
   \<and> summary_timestamp (new_ExecutionSummary (import_action_types utcnow) utcnow n1 ev1 pol1 rule1 None)
       = summary_timestamp (new_ExecutionSummary (import_action_types utcnow) utcnow n2 ev2 pol2 rule2 None)"
  by (simp add: new_ActionResult_def new_ExecutionSummary_def import_action_types_def)

theorem default_timestamp_fixed_at_import_witness:
  "timestamp (new_ActionResult (import_action_types (\<lambda>n. 1000 * n + 7)) (\<lambda>n. 1000 * n + 7) 2 ALERT True None None None None)
     = timestamp (new_ActionResult (import_action_types (\<lambda>n. 1000 * n + 7)) (\<lambda>n. 1000 * n + 7) 50 BLOCK False None None None None)
   \<and> timestamp (new_ActionResult (import_action_types (\<lambda>n. 1000 * n + 7)) (\<lambda>n. 1000 * n + 7) 50 BLOCK False None None None None) = 7"
  using default_timestamp_fixed_at_import
          [where utcnow="\<lambda>n. 1000 * n + 7" and ?n1.0=2 and ?a1.0=ALERT and ?ok1.0=True and ?msg1.0=None
             and ?meta1.0=None and ?err1.0=None and ?n2.0=50 and ?a2.0=BLOCK and ?ok2.0=False
             and ?msg2.0=None and ?meta2.0=None and ?err2.0=None and ?ev1.0="''e''" and ?pol1.0="''p''"
             and ?rule1.0="''r''" and ?ev2.0="''e''" and ?pol2.0="''p''" and ?rule2.0="''r''"]
  by simp


section \<open>Batches and indices\<close>

lemma strftime_demo: "strftime_Ymd demo_date = ''2026.11.04''"
  by (simp add: strftime_Ymd_def demo_date_def digit_char_def)

lemma bulk_count_sum:
  "bulk_count oks (s, e) = (s', e') \<Longrightarrow> s' + e' = s + e + length oks"
  by (induction oks arbitrary: s e) (auto split: if_splits)

lemma batch_failure_counts: "batch_counts_add_up (batch_failure e n) n"
  by (simp add: batch_counts_add_up_def batch_failure_def dict_get_def)

lemma ELK_send_batch_counts:
  assumes "one_result_per_action w"
  shows "batch_counts_add_up (fst (ELK_send_batch w today now_iso self events idx)) (length events)"
proof -
  let ?self = "ELK_ensure_connected w self"
  let ?actions = "map (\<lambda>event. (ELK_target_index ?self today idx, format_dlp_event now_iso event)) events"
  show ?thesis
  proof (cases "client ?self")
    case False
    then show ?thesis
      by (simp add: ELK_send_batch_def Let_def batch_failure_counts)
  next
    case True
    show ?thesis
    proof (cases "es_streaming_bulk w ?actions")
      case (Raised e)
      with True show ?thesis
        by (simp add: ELK_send_batch_def Let_def batch_failure_counts)
    next
      case (Returned oks)
      with assms have len: "length oks = length events"
        unfolding one_result_per_action_def by fastforce
      obtain sc ec where bc: "bulk_count oks (0, 0) = (sc, ec)"
        by (cases "bulk_count oks (0, 0)")
      from bulk_count_sum[OF bc] len have "sc + ec = length events" by simp
      then have "int sc + int ec = int (length events)" by linarith
      with True Returned bc show ?thesis
        by (simp add: ELK_send_batch_def Let_def batch_counts_add_up_def dict_get_def)
    qed
  qed
qed

lemma Splunk_success_counts:
  "batch_counts_add_up
     [(''success'', PBool True), (''total'', PInt (int n)), (''indexed'', PInt (int n)),
      (''failed'', PInt 0), (''index'', PStr i)] n"
  by (simp add: batch_counts_add_up_def dict_get_def)

lemma Splunk_send_batch_counts:
  "batch_counts_add_up (fst (Splunk_send_batch w now_iso self events idx)) (length events)"
  by (simp add: Splunk_send_batch_def Let_def batch_failure_counts Splunk_success_counts
        split: outcome.splits prod.splits)

lemma demo_es_one_result: "one_result_per_action demo_es"
  by (auto simp: one_result_per_action_def demo_es_def)

text \<open>
  C5. For every list of events, the result of \<^verbatim>\<open>send_batch\<close> of the ELK connector and of
  the Splunk connector has \<open>total\<close> equal to the number of events submitted and
  \<open>indexed + failed = total\<close>, on the success path and on every failure path. For ELK the
  success path counts what the bulk helper yields, which is one result per action.
\<close>

theorem send_batch_counts_add_up:
  assumes "one_result_per_action w"
  shows "batch_counts_add_up (fst (ELK_send_batch w today now_iso self events idx)) (length events)
       \<and> batch_counts_add_up (fst (Splunk_send_batch sw now_iso' sself events' idx')) (length events')"
  using ELK_send_batch_counts[OF assms] Splunk_send_batch_counts by blast

theorem send_batch_counts_add_up_witness:
  "one_result_per_action demo_es
   \<and> fst (ELK_send_batch demo_es demo_date ''2026-11-04T00:00:00'' demo_elk [demo_event, demo_event, demo_event] None)
       = [(''success'', PBool True), (''total'', PInt 3), (''indexed'', PInt 2), (''failed'', PInt 1),
          (''index'', PStr ''dlp-events-2026.11.04'')]
   \<and> batch_counts_add_up
         (fst (ELK_send_batch demo_es demo_date ''2026-11-04T00:00:00'' demo_elk [demo_event, demo_event, demo_event] None)) 3
   \<and> fst (Splunk_send_batch demo_hec ''2026-11-04T00:00:00'' demo_splunk [demo_event, demo_event] None)
       = batch_failure ''Service Unavailable'' 2
   \<and> batch_counts_add_up
         (fst (Splunk_send_batch demo_hec ''2026-11-04T00:00:00'' demo_splunk [demo_event, demo_event] None)) 2"
proof -
  note t = send_batch_counts_add_up[OF demo_es_one_result,
      where today=demo_date and now_iso="''2026-11-04T00:00:00''" and self=demo_elk
        and events="[demo_event, demo_event, demo_event]" and idx=None
        and sw=demo_hec and now_iso'="''2026-11-04T00:00:00''" and sself=demo_splunk
        and events'="[demo_event, demo_event]" and idx'=None]
  have e: "fst (ELK_send_batch demo_es demo_date ''2026-11-04T00:00:00'' demo_elk [demo_event, demo_event, demo_event] None)
       = [(''success'', PBool True), (''total'', PInt 3), (''indexed'', PInt 2), (''failed'', PInt 1),
          (''index'', PStr ''dlp-events-2026.11.04'')]"
    by (simp add: ELK_send_batch_def ELK_ensure_connected_def ELK_target_index_def demo_es_def demo_elk_def
          strftime_demo Let_def upt_rec)
  have sp: "fst (Splunk_send_batch demo_hec ''2026-11-04T00:00:00'' demo_splunk [demo_event, demo_event] None)
       = batch_failure ''Service Unavailable'' 2"
    by (simp add: Splunk_send_batch_def Splunk_ensure_connected_def demo_hec_def demo_splunk_def
          hec_payload_def format_dlp_event_def format_dlp_event_raw_def demo_event_def
          dict_get_def dict_get_default_def Let_def batch_failure_def)
  from t e sp demo_es_one_result show ?thesis by (simp add: numeral_3_eq_3 numeral_2_eq_2)
qed

section \<open>The daily index\<close>

lemma ELK_ensure_connected_prefix [simp]:
  "index_prefix (ELK_ensure_connected w self) = index_prefix self"
  by (simp add: ELK_ensure_connected_def ELK_connect_def split: outcome.splits)




end
